theory Spec2Isabelle
  imports Complex_Main
begin

section \<open>Data model (backend/src/types, services/aiProvider.ts)\<close>

text \<open>
  JavaScript numbers that carry seconds are modelled as exact rationals: the comparisons,
  \<open>Math.min\<close>, \<open>Math.max\<close>, sums and products of the source are taken without
  rounding, and \<open>NaN\<close> and the infinities are left out (the request schema refuses
  \<open>NaN\<close>). Counters are natural numbers. Strings are character lists, so
  \<open>substring(0, n)\<close> is \<open>take n\<close>.
\<close>

datatype clipLengthPreset = Short | Medium | Long | Custom

datatype aspectRatio = AR_9_16 | AR_16_9 | AR_1_1 | AR_auto

datatype template = Clean | Creator | Meme

text \<open>
  Every timed object of the source has the fields \<open>startSec\<close> and \<open>endSec\<close>; they
  live in one base record, which the transcript segment, the caption, the generated clip
  and the stored clip row all extend, so the two field names are the source's everywhere.
  The field \<open>text\<close> is called \<open>segText\<close>, the caption's \<open>keywords\<close> is
  \<open>capKeywords\<close> and \<open>id\<close> is \<open>clipId\<close>. The optional field \<open>selected\<close> of a
  generated clip is never set by the backend and is left out.
\<close>

record interval =
  startSec :: rat
  endSec :: rat

record segment = interval +
  segText :: string

record transcript =
  segments :: "segment list"

record caption = segment +
  capKeywords :: "string list option"

record clipOptions =
  timeStartSec :: rat
  timeEndSec :: rat
  clipLengthPreset :: clipLengthPreset
  clipLengthMinSec :: "rat option"
  clipLengthMaxSec :: "rat option"
  aspectRatio :: aspectRatio
  template :: template
  memeHook :: bool
  gameMode :: bool
  hookTitle :: bool
  callToAction :: bool
  backgroundMusic :: bool
  captionsEnabled :: bool
  wordsPerCaption :: rat
  highlightKeywords :: bool
  autoThumbnail :: bool

record scores =
  engagement :: rat
  clarity :: rat
  hook :: rat

record generatedClip = interval +
  clipId :: string
  title :: string
  durationSec :: rat
  clipAspectRatio :: aspectRatio
  clipTemplate :: template
  hasCaptions :: bool
  hasMemeHook :: bool
  scores :: scores
  captions :: "caption list"
  thumbnailCandidates :: "rat list"

section \<open>String helpers\<close>

definition digitChar :: "nat \<Rightarrow> char" where
  "digitChar d = char_of (48 + d)"

text \<open>Decimal rendering of a counter inside a template literal.\<close>

fun showNat :: "nat \<Rightarrow> string" where
  "showNat n = (if n < 10 then [digitChar n] else showNat (n div 10) @ [digitChar (n mod 10)])"

declare showNat.simps [simp del]

text \<open>\<open>Array.prototype.join(' ')\<close>.\<close>

fun joinSpace :: "string list \<Rightarrow> string" where
  "joinSpace [] = []"
| "joinSpace [x] = x"
| "joinSpace (x # y # ys) = x @ '' '' @ joinSpace (y # ys)"

definition isSpace :: "char \<Rightarrow> bool" where
  "isSpace c = (c \<in> set [CHR '' '', CHR 0x09, CHR 0x0A, CHR 0x0B, CHR 0x0C, CHR 0x0D])"

text \<open>\<open>toLowerCase\<close> on the ASCII letters.\<close>

definition toLowerChar :: "char \<Rightarrow> char" where
  "toLowerChar c =
     (let n = of_char c :: nat in if 65 \<le> n \<and> n \<le> 90 then char_of (n + 32) else c)"

definition toLowerCase :: "string \<Rightarrow> string" where
  "toLowerCase s = map toLowerChar s"

text \<open>
  \<open>split(/\s+/)\<close>: the pieces between maximal runs of white space, an empty piece at
  either end when the string starts or ends with white space. The first argument collects
  the current piece in reverse.
\<close>

function splitWs :: "string \<Rightarrow> string \<Rightarrow> string list" where
  "splitWs cur [] = [rev cur]"
| "splitWs cur (c # cs) =
     (if isSpace c then rev cur # splitWs [] (dropWhile isSpace cs)
      else splitWs (c # cur) cs)"
  by pat_completeness auto
termination
  by (relation "measure (\<lambda>(cur, s). length s)")
     (auto simp: less_Suc_eq_le length_dropWhile_le)

definition stopWords :: "string list" where
  "stopWords = [''the'', ''a'', ''an'', ''and'', ''or'', ''but'', ''in'', ''on'', ''at'', ''to'',
     ''for'', ''of'', ''with'', ''by'', ''is'', ''are'', ''was'', ''were'', ''be'', ''been'',
     ''have'', ''has'', ''had'', ''do'', ''does'', ''did'', ''will'', ''would'', ''could'',
     ''should'', ''may'', ''might'', ''can'', ''this'', ''that'', ''these'', ''those'', ''i'',
     ''you'', ''he'', ''she'', ''it'', ''we'', ''they'']"

definition extractKeywords :: "string \<Rightarrow> string list" where
  "extractKeywords txt =
     take 3 (filter (\<lambda>word. length word > 3 \<and> \<not> List.member stopWords word)
       (splitWs [] (toLowerCase txt)))"

section \<open>The segmentation engine: GeminiProvider.suggestClips\<close>

text \<open>
  \<open>a || d\<close> on an optional number: the default is taken when the field is absent and
  when it is \<open>0\<close>.
\<close>

definition orDefault :: "rat option \<Rightarrow> rat \<Rightarrow> rat" where
  "orDefault v d = (case v of None \<Rightarrow> d | Some x \<Rightarrow> if x = 0 then d else x)"

text \<open>The \<open>switch\<close> on the preset, one definition per variable it assigns.\<close>

definition minDuration :: "clipOptions \<Rightarrow> rat" where
  "minDuration opts =
     (case clipLengthPreset opts of
        Short \<Rightarrow> 10
      | Medium \<Rightarrow> 25
      | Long \<Rightarrow> 45
      | Custom \<Rightarrow> orDefault (clipLengthMinSec opts) 10)"

definition maxDuration :: "clipOptions \<Rightarrow> rat" where
  "maxDuration opts =
     (case clipLengthPreset opts of
        Short \<Rightarrow> 25
      | Medium \<Rightarrow> 45
      | Long \<Rightarrow> 90
      | Custom \<Rightarrow> orDefault (clipLengthMaxSec opts) 60)"

definition generateCaptions :: "segment list \<Rightarrow> clipOptions \<Rightarrow> caption list" where
  "generateCaptions segs opts =
     map (\<lambda>seg. \<lparr> startSec = startSec seg, endSec = endSec seg, segText = segText seg,
                  capKeywords = (if highlightKeywords opts
                              then Some (extractKeywords (segText seg)) else None) \<rparr>) segs"

definition relevantSegments :: "transcript \<Rightarrow> rat \<Rightarrow> rat \<Rightarrow> segment list" where
  "relevantSegments tr cur e =
     filter (\<lambda>seg. startSec seg < e \<and> endSec seg > cur) (segments tr)"

text \<open>
  The variables of the loop. \<open>Math.random()\<close> is an explicit sequence of draws
  \<open>rnd 0, rnd 1, ...\<close>, and \<open>drawn\<close> counts the calls made so far.
\<close>

record loopState =
  currentStart :: rat
  clipIndex :: nat
  clips :: "generatedClip list"
  drawn :: nat

definition spanDuration :: "clipOptions \<Rightarrow> rat \<Rightarrow> rat" where
  "spanDuration opts cur =
     min (maxDuration opts) (max (minDuration opts) (timeEndSec opts - cur))"

definition makeClip ::
  "(nat \<Rightarrow> rat) \<Rightarrow> clipOptions \<Rightarrow> loopState \<Rightarrow> segment list \<Rightarrow> generatedClip" where
  "makeClip rnd opts st rel =
     (let duration = spanDuration opts (currentStart st);
          clipText = take 100 (joinSpace (map segText rel))
      in \<lparr> startSec = currentStart st,
           endSec = currentStart st + duration,
           clipId = ''clip-'' @ showNat (clipIndex st + 1),
           title = ''Clip '' @ showNat (clipIndex st + 1) @ '': '' @ take 50 clipText @ ''...'',
           durationSec = duration,
           clipAspectRatio = aspectRatio opts,
           clipTemplate = template opts,
           hasCaptions = captionsEnabled opts,
           hasMemeHook = memeHook opts,
           scores = \<lparr> engagement = rnd (drawn st) * (1 / 2) + 1 / 2,
                      clarity = rnd (drawn st + 1) * (3 / 10) + 7 / 10,
                      hook = rnd (drawn st + 2) * (2 / 5) + 3 / 5 \<rparr>,
           captions = (if captionsEnabled opts then generateCaptions rel opts else []),
           thumbnailCandidates =
             [currentStart st + duration * (1 / 10),
              currentStart st + duration * (1 / 2),
              currentStart st + duration * (9 / 10)] \<rparr>)"

definition loopCond :: "clipOptions \<Rightarrow> loopState \<Rightarrow> bool" where
  "loopCond opts st = (currentStart st < timeEndSec opts \<and> clipIndex st < 10)"

definition loopBody ::
  "(nat \<Rightarrow> rat) \<Rightarrow> transcript \<Rightarrow> clipOptions \<Rightarrow> loopState \<Rightarrow> loopState" where
  "loopBody rnd tr opts st =
     (let endS = currentStart st + spanDuration opts (currentStart st);
          rel = relevantSegments tr (currentStart st) endS;
          st' = (if length rel > 0
                 then st \<lparr> clips := clips st @ [makeClip rnd opts st rel],
                           drawn := drawn st + 3 \<rparr>
                 else st)
      in st' \<lparr> currentStart := endS + 5, clipIndex := clipIndex st + 1 \<rparr>)"

function suggestLoop ::
  "(nat \<Rightarrow> rat) \<Rightarrow> transcript \<Rightarrow> clipOptions \<Rightarrow> loopState \<Rightarrow> loopState" where
  "suggestLoop rnd tr opts st =
     (if loopCond opts st then suggestLoop rnd tr opts (loopBody rnd tr opts st) else st)"
  by pat_completeness auto
termination
  by (relation "measure (\<lambda>(rnd, tr, opts, st). 10 - clipIndex st)")
     (auto simp: loopCond_def loopBody_def Let_def)

declare suggestLoop.simps [simp del]

definition initialState :: "clipOptions \<Rightarrow> loopState" where
  "initialState opts = \<lparr> currentStart = timeStartSec opts, clipIndex = 0, clips = [], drawn = 0 \<rparr>"

definition suggestClips :: "(nat \<Rightarrow> rat) \<Rightarrow> transcript \<Rightarrow> clipOptions \<Rightarrow> generatedClip list" where
  "suggestClips rnd tr opts = clips (suggestLoop rnd tr opts (initialState opts))"

section \<open>The job store (db.ts)\<close>

text \<open>
  The rows of the JSON store. The columns that hold \<open>JSON.stringify\<close> of a value hold the
  value itself here. \<open>save()\<close> writes the file and can throw; whether the write of a call
  fails is given by the caller as an optional error message.
\<close>

datatype jsError = Error string

record jobRow =
  jobRowId :: string
  createdAt :: string
  sourceType :: string
  sourcePath :: "string option"
  sourceUrl :: "string option"
  options :: clipOptions
  videoDurationSec :: rat
  providerName :: string
  status :: string

record clipRow = interval +
  rowId :: string
  jobId :: string
  rowTitle :: string
  rowDurationSec :: rat
  rowAspectRatio :: aspectRatio
  rowTemplate :: template
  rowHasCaptions :: nat
  rowHasMemeHook :: nat
  rowScores :: scores
  captionData :: "caption list option"
  thumbnailTimestamps :: "rat list option"
  clipFilePath :: "string option"

record jsonDb =
  dbJobs :: "jobRow list"
  dbClips :: "clipRow list"

definition save :: "string option \<Rightarrow> jsError option" where
  "save writeError = map_option Error writeError"

text \<open>\<open>createJob\<close>: the row gets its creation time, is pushed, and the store is saved.\<close>

definition createJob :: "string \<Rightarrow> string option \<Rightarrow> jobRow \<Rightarrow> jsonDb \<Rightarrow> jsonDb \<times> jsError option" where
  "createJob now writeError job d =
     (d \<lparr> dbJobs := dbJobs d @ [job \<lparr> createdAt := now \<rparr>] \<rparr>, save writeError)"

definition getJob :: "string \<Rightarrow> jsonDb \<Rightarrow> jobRow option" where
  "getJob jid d = find (\<lambda>j. jobRowId j = jid) (dbJobs d)"

text \<open>\<open>createClip\<close>: the row is pushed before the store is saved.\<close>

definition createClip :: "string option \<Rightarrow> clipRow \<Rightarrow> jsonDb \<Rightarrow> jsonDb \<times> jsError option" where
  "createClip writeError newClip d =
     (d \<lparr> dbClips := dbClips d @ [newClip] \<rparr>, save writeError)"

definition getClipsByJobId :: "string \<Rightarrow> jsonDb \<Rightarrow> clipRow list" where
  "getClipsByJobId jid d = sort_key startSec (filter (\<lambda>c. jobId c = jid) (dbClips d))"

section \<open>The media extractor (videoProcessor.ts)\<close>

text \<open>
  A fluent-ffmpeg command is its input file and the options set on it, in the order of
  the calls. Running it is the work of the external program: \<open>run cmd\<close> is \<open>None\<close>
  when ffmpeg ends normally and the message of the error event otherwise.
\<close>

datatype ffmpegOption =
    SeekInput rat
  | Duration rat
  | NoVideo
  | AudioCodec string
  | AudioBitrate string
  | VideoFilters string
  | Size string
  | VideoBitrate string
  | VideoCodec string
  | Output string

record ffmpegCommand =
  inputFile :: string
  cmdOptions :: "ffmpegOption list"

definition extractAudioCommand :: "string \<Rightarrow> string \<Rightarrow> ffmpegCommand" where
  "extractAudioCommand inputPath outputPath =
     \<lparr> inputFile = inputPath,
       cmdOptions = [NoVideo, AudioCodec ''mp3'', AudioBitrate ''128k'', Output outputPath] \<rparr>"

definition extractAudio ::
  "(ffmpegCommand \<Rightarrow> string option) \<Rightarrow> string \<Rightarrow> string \<Rightarrow> jsError + unit" where
  "extractAudio run inputPath outputPath =
     (case run (extractAudioCommand inputPath outputPath) of
        None \<Rightarrow> Inr ()
      | Some msg \<Rightarrow> Inl (Error (''Failed to extract audio: '' @ msg)))"

fun isWindowOption :: "ffmpegOption \<Rightarrow> bool" where
  "isWindowOption (SeekInput t) = True"
| "isWindowOption (Duration t) = True"
| "isWindowOption opt = False"

definition windowBounded :: "ffmpegCommand \<Rightarrow> bool" where
  "windowBounded cmd = list_ex isWindowOption (cmdOptions cmd)"

section \<open>The orchestrator (routes/video.ts)\<close>

datatype errorCode = INVALID_SOURCE | DOWNLOAD_FAILED | VIDEO_TOO_LONG | AI_ERROR | INTERNAL | NOT_FOUND

record apiError =
  errorCode :: errorCode
  message :: string

text \<open>The time-range check of the analyze handler, made before the job is created.\<close>

definition validateTimeRange :: "clipOptions \<Rightarrow> rat \<Rightarrow> apiError option" where
  "validateTimeRange opts metaDurationSec =
     (if timeStartSec opts \<ge> timeEndSec opts \<or> timeEndSec opts > metaDurationSec
      then Some \<lparr> errorCode = INVALID_SOURCE, message = ''Invalid time range specified'' \<rparr>
      else None)"

text \<open>
  The \<open>AIProvider\<close> interface: both methods return a promise, which can reject.
\<close>

record aiProvider =
  provTranscribe :: "string \<Rightarrow> rat \<Rightarrow> rat \<Rightarrow> jsError + transcript"
  provSuggestClips :: "transcript \<Rightarrow> clipOptions \<Rightarrow> jsError + generatedClip list"

text \<open>
  What \<open>processVideoAsync\<close> meets outside itself: the working directory, the error (if
  any) thrown while the audio directory is made, the ffmpeg runs, the result of the factory
  \<open>createAIProvider()\<close>, which throws on a missing key or an unknown provider name, and
  the write errors of the successive \<open>save()\<close> calls.
\<close>

record procEnv =
  cwd :: string
  ensureAudioDir :: "string option"
  ffmpegRun :: "ffmpegCommand \<Rightarrow> string option"
  createAIProvider :: "jsError + aiProvider"
  saveError :: "nat \<Rightarrow> string option"

text \<open>
  The result: the store afterwards, the error that reached the \<open>catch\<close> block (which only
  logs it), and whether \<open>cleanup(audioPath)\<close> was reached.
\<close>

record procResult =
  resDb :: jsonDb
  caught :: "jsError option"
  audioCleaned :: bool

definition audioPathOf :: "procEnv \<Rightarrow> string \<Rightarrow> string" where
  "audioPathOf env jid = cwd env @ ''/temp/audio/'' @ jid @ ''.mp3''"

text \<open>
  The argument of \<open>createClip\<close> built in the persistence loop, with the two flags already
  turned into \<open>1\<close> or \<open>0\<close> as \<open>createClip\<close> does.
\<close>

definition clipRowOf :: "string \<Rightarrow> generatedClip \<Rightarrow> clipRow" where
  "clipRowOf jid clip =
     \<lparr> startSec = startSec clip,
       endSec = endSec clip,
       rowId = clipId clip,
       jobId = jid,
       rowTitle = title clip,
       rowDurationSec = durationSec clip,
       rowAspectRatio = clipAspectRatio clip,
       rowTemplate = clipTemplate clip,
       rowHasCaptions = (if hasCaptions clip then 1 else 0),
       rowHasMemeHook = (if hasMemeHook clip then 1 else 0),
       rowScores = scores clip,
       captionData = Some (captions clip),
       thumbnailTimestamps = Some (thumbnailCandidates clip),
       clipFilePath = None \<rparr>"

text \<open>The \<open>for ... of\<close> loop over the clips; \<open>k\<close> counts the \<open>save()\<close> calls.\<close>

fun saveClips ::
  "(nat \<Rightarrow> string option) \<Rightarrow> string \<Rightarrow> generatedClip list \<Rightarrow> nat \<Rightarrow> jsonDb
     \<Rightarrow> jsonDb \<times> jsError option" where
  "saveClips saveErr jid [] k d = (d, None)"
| "saveClips saveErr jid (clip # rest) k d =
     (case createClip (saveErr k) (clipRowOf jid clip) d of
        (d', Some e) \<Rightarrow> (d', Some e)
      | (d', None) \<Rightarrow> saveClips saveErr jid rest (Suc k) d')"

definition catchBlock :: "jsonDb \<Rightarrow> jsError \<Rightarrow> procResult" where
  "catchBlock d e = \<lparr> resDb = d, caught = Some e, audioCleaned = False \<rparr>"

text \<open>
  \<open>processVideoAsync\<close>: every stage sits in one \<open>try\<close> block, so the first failure
  skips the rest and reaches \<open>catchBlock\<close>. Its parameters \<open>metadata\<close> and
  \<open>sourcePlatform\<close> are never read and are left out.
\<close>

definition processVideoAsync ::
  "procEnv \<Rightarrow> jsonDb \<Rightarrow> string \<Rightarrow> string \<Rightarrow> clipOptions \<Rightarrow> procResult" where
  "processVideoAsync env d jid videoPath opts =
     (case ensureAudioDir env of
        Some msg \<Rightarrow> catchBlock d (Error msg)
      | None \<Rightarrow>
     (case extractAudio (ffmpegRun env) videoPath (audioPathOf env jid) of
        Inl e \<Rightarrow> catchBlock d e
      | Inr u \<Rightarrow>
     (case createAIProvider env of
        Inl e \<Rightarrow> catchBlock d e
      | Inr provider \<Rightarrow>
     (case provTranscribe provider (audioPathOf env jid) (timeStartSec opts) (timeEndSec opts) of
        Inl e \<Rightarrow> catchBlock d e
      | Inr tr \<Rightarrow>
     (case provSuggestClips provider tr opts of
        Inl e \<Rightarrow> catchBlock d e
      | Inr cs \<Rightarrow>
     (case saveClips (saveError env) jid cs 0 d of
        (d', Some e) \<Rightarrow> catchBlock d' e
      | (d', None) \<Rightarrow> \<lparr> resDb = d', caught = None, audioCleaned = True \<rparr>))))))"

text \<open>The Gemini provider's clip suggestion as a method of the interface; it never rejects.\<close>

definition geminiSuggestClips ::
  "(nat \<Rightarrow> rat) \<Rightarrow> transcript \<Rightarrow> clipOptions \<Rightarrow> jsError + generatedClip list" where
  "geminiSuggestClips rnd tr opts = Inr (suggestClips rnd tr opts)"

section \<open>Properties of clip lists\<close>

definition sortedByStart :: "generatedClip list \<Rightarrow> bool" where
  "sortedByStart cs = sorted (map startSec cs)"

text \<open>Two windows overlap by the engine's own overlap test.\<close>

definition clipsOverlap :: "generatedClip \<Rightarrow> generatedClip \<Rightarrow> bool" where
  "clipsOverlap a b = (startSec a < endSec b \<and> startSec b < endSec a)"

definition nonOverlapping :: "generatedClip list \<Rightarrow> bool" where
  "nonOverlapping cs = sorted_wrt (\<lambda>a b. \<not> clipsOverlap a b) cs"

text \<open>The loop invariant behind the ordering: each clip ends five seconds before the next starts.\<close>

definition orderedInv :: "loopState \<Rightarrow> bool" where
  "orderedInv st =
     (sorted_wrt (\<lambda>a b. endSec a + 5 \<le> startSec b) (clips st) \<and>
      (\<forall>c\<in>set (clips st). startSec c < endSec c \<and> endSec c + 5 \<le> currentStart st))"

definition clipWithinBounds :: "clipOptions \<Rightarrow> generatedClip \<Rightarrow> bool" where
  "clipWithinBounds opts c =
     (minDuration opts \<le> durationSec c \<and> durationSec c \<le> maxDuration opts \<and>
      endSec c = startSec c + durationSec c \<and>
      timeStartSec opts \<le> startSec c \<and> startSec c < timeEndSec opts \<and>
      startSec c < endSec c \<and>
      endSec c \<le> max (timeEndSec opts) (startSec c + minDuration opts))"

definition clipInsideWindow :: "clipOptions \<Rightarrow> generatedClip \<Rightarrow> bool" where
  "clipInsideWindow opts c = (timeStartSec opts \<le> startSec c \<and> endSec c \<le> timeEndSec opts)"

definition captionInside :: "generatedClip \<Rightarrow> caption \<Rightarrow> bool" where
  "captionInside c k = (startSec c \<le> startSec k \<and> endSec k \<le> endSec c)"

definition captionsInsideClip :: "generatedClip \<Rightarrow> bool" where
  "captionsInsideClip c = list_all (captionInside c) (captions c)"

definition captionsOfSpan :: "transcript \<Rightarrow> clipOptions \<Rightarrow> generatedClip \<Rightarrow> bool" where
  "captionsOfSpan tr opts c =
     (captions c = (if captionsEnabled opts
                    then generateCaptions (relevantSegments tr (startSec c) (endSec c)) opts
                    else []))"

definition scoresInSubranges :: "scores \<Rightarrow> bool" where
  "scoresInSubranges s =
     (1 / 2 \<le> engagement s \<and> engagement s \<le> 1 \<and>
      7 / 10 \<le> clarity s \<and> clarity s \<le> 1 \<and>
      3 / 5 \<le> hook s \<and> hook s \<le> 1)"

definition scoresInUnit :: "scores \<Rightarrow> bool" where
  "scoresInUnit s =
     (0 \<le> engagement s \<and> engagement s \<le> 1 \<and>
      0 \<le> clarity s \<and> clarity s \<le> 1 \<and>
      0 \<le> hook s \<and> hook s \<le> 1)"

section \<open>Concrete inputs\<close>

text \<open>Draw sequences: a constant one, and one that is constant for the first thirty draws.\<close>

definition constDraws :: "rat \<Rightarrow> nat \<Rightarrow> rat" where
  "constDraws r k = r"

definition cutDraws :: "rat \<Rightarrow> nat \<Rightarrow> rat" where
  "cutDraws r k = (if k < 30 then r else 0)"

text \<open>A request for the first minute of a video, preset \<open>short\<close>, captions on.\<close>

definition baseOptions :: clipOptions where
  "baseOptions = \<lparr> timeStartSec = 0, timeEndSec = 60, clipLengthPreset = Short,
     clipLengthMinSec = None, clipLengthMaxSec = None, aspectRatio = AR_9_16, template = Clean,
     memeHook = False, gameMode = False, hookTitle = False, callToAction = False,
     backgroundMusic = False, captionsEnabled = True, wordsPerCaption = 5,
     highlightKeywords = True, autoThumbnail = False \<rparr>"

text \<open>The window \<open>[0, 5)\<close>, shorter than the preset's minimum of ten seconds.\<close>

definition shortWindowOptions :: clipOptions where
  "shortWindowOptions = baseOptions \<lparr> timeEndSec := 5 \<rparr>"

text \<open>
  A custom preset with a negative maximum, which the request schema
  (\<open>clipLengthMaxSec: z.number().optional()\<close>) lets through, on the window \<open>[100, 110)\<close>.
\<close>

definition negativeMaxOptions :: clipOptions where
  "negativeMaxOptions = baseOptions \<lparr> timeStartSec := 100, timeEndSec := 110,
     clipLengthPreset := Custom, clipLengthMaxSec := Some (- 30) \<rparr>"

text \<open>The window of the spec's scenario \<open>start = 100, end = 50\<close>.\<close>

definition degenerateOptions :: clipOptions where
  "degenerateOptions = baseOptions \<lparr> timeStartSec := 100, timeEndSec := 50 \<rparr>"

definition halfMinuteSegments :: transcript where
  "halfMinuteSegments = \<lparr> segments =
     [\<lparr> startSec = 0, endSec = 30, segText = ''Welcome back to the channel'' \<rparr>,
      \<lparr> startSec = 30, endSec = 60, segText = ''Thanks for watching'' \<rparr>] \<rparr>"

text \<open>The transcript of the window \<open>[0, 5)\<close>: one segment, the whole window.\<close>

definition fiveSecondSegment :: transcript where
  "fiveSecondSegment = \<lparr> segments =
     [\<lparr> startSec = 0, endSec = 5, segText = ''Welcome back'' \<rparr>] \<rparr>"

text \<open>
  A transcript of the whole audio file in one segment (\<open>extractAudio\<close> hands the
  provider the whole track, see below).
\<close>

definition wholeFileSegment :: transcript where
  "wholeFileSegment = \<lparr> segments =
     [\<lparr> startSec = 0, endSec = 110, segText = ''One long take'' \<rparr>] \<rparr>"

text \<open>
  An environment in which every stage works, with a provider whose transcript has no
  segment, and one in which ffmpeg reports an error.
\<close>

definition ffmpegOk :: "ffmpegCommand \<Rightarrow> string option" where
  "ffmpegOk cmd = None"

definition ffmpegFails :: "ffmpegCommand \<Rightarrow> string option" where
  "ffmpegFails cmd = Some ''ffmpeg exited with code 1''"

definition noWriteError :: "nat \<Rightarrow> string option" where
  "noWriteError k = None"

definition emptyTranscribe :: "string \<Rightarrow> rat \<Rightarrow> rat \<Rightarrow> jsError + transcript" where
  "emptyTranscribe filePath s e = Inr \<lparr> segments = [] \<rparr>"

definition silentProvider :: aiProvider where
  "silentProvider = \<lparr> provTranscribe = emptyTranscribe,
                       provSuggestClips = geminiSuggestClips (constDraws (1 / 2)) \<rparr>"

definition quietEnv :: procEnv where
  "quietEnv = \<lparr> cwd = ''/app'', ensureAudioDir = None, ffmpegRun = ffmpegOk,
                 createAIProvider = Inr silentProvider, saveError = noWriteError \<rparr>"

definition brokenSourceEnv :: procEnv where
  "brokenSourceEnv = quietEnv \<lparr> ffmpegRun := ffmpegFails \<rparr>"

text \<open>The row the analyze handler passes to \<open>createJob\<close> for an uploaded file.\<close>

definition newJob :: "string \<Rightarrow> clipOptions \<Rightarrow> jobRow" where
  "newJob jid opts = \<lparr> jobRowId = jid, createdAt = [], sourceType = ''file'',
       sourcePath = Some ''/app/temp/uploads/talk.mp4'', sourceUrl = None, options = opts,
       videoDurationSec = 600, providerName = ''gemini'', status = ''processing'' \<rparr>"

definition freshDb :: jsonDb where
  "freshDb = fst (createJob ''2024-01-01T00:00:00.000Z'' None (newJob ''job-1'' baseOptions)
                   \<lparr> dbJobs = [], dbClips = [] \<rparr>)"

section \<open>The loop of suggestClips\<close>

text \<open>
  An invariant that holds at the start and is kept by the body whenever the loop condition
  holds, holds of the state the loop returns.
\<close>

lemma suggestLoop_invariant_aux:
  "P st \<Longrightarrow> (\<forall>s. P s \<longrightarrow> loopCond opts s \<longrightarrow> P (loopBody rnd tr opts s))
     \<Longrightarrow> P (suggestLoop rnd tr opts st)"
proof (induction rnd tr opts st rule: suggestLoop.induct)
  case (1 rnd tr opts st)
  show ?case
  proof (cases "loopCond opts st")
    case True
    then have "P (loopBody rnd tr opts st)"
      using "1.prems" by blast
    then have "P (suggestLoop rnd tr opts (loopBody rnd tr opts st))"
      using "1.IH" True "1.prems"(2) by blast
    then show ?thesis
      using True by (subst suggestLoop.simps) simp
  next
    case False
    then show ?thesis
      using "1.prems"(1) by (subst suggestLoop.simps) simp
  qed
qed

lemma suggestLoop_invariant:
  assumes "P st"
    and "\<And>s. P s \<Longrightarrow> loopCond opts s \<Longrightarrow> P (loopBody rnd tr opts s)"
  shows "P (suggestLoop rnd tr opts st)"
proof (rule suggestLoop_invariant_aux)
  show "P st" by (rule assms(1))
  show "\<forall>s. P s \<longrightarrow> loopCond opts s \<longrightarrow> P (loopBody rnd tr opts s)"
    using assms(2) by blast
qed

lemma clipIndex_loopBody: "clipIndex (loopBody rnd tr opts st) = Suc (clipIndex st)"
  by (simp add: loopBody_def Let_def)

lemma currentStart_loopBody:
  "currentStart (loopBody rnd tr opts st) = currentStart st + spanDuration opts (currentStart st) + 5"
  by (simp add: loopBody_def Let_def)

lemma clips_loopBody:
  "clips (loopBody rnd tr opts st) =
     (if relevantSegments tr (currentStart st) (currentStart st + spanDuration opts (currentStart st)) = []
      then clips st
      else clips st @ [makeClip rnd opts st
        (relevantSegments tr (currentStart st) (currentStart st + spanDuration opts (currentStart st)))])"
  by (simp add: loopBody_def Let_def)

lemma drawn_loopBody:
  "drawn (loopBody rnd tr opts st) =
     (if relevantSegments tr (currentStart st) (currentStart st + spanDuration opts (currentStart st)) = []
      then drawn st else drawn st + 3)"
  by (simp add: loopBody_def Let_def)

lemma makeClip_fields:
  "startSec (makeClip rnd opts st rel) = currentStart st"
  "endSec (makeClip rnd opts st rel) = currentStart st + spanDuration opts (currentStart st)"
  "durationSec (makeClip rnd opts st rel) = spanDuration opts (currentStart st)"
  by (simp_all add: makeClip_def Let_def)

lemma clipIndex_funpow: "clipIndex ((loopBody rnd tr opts ^^ n) st) = clipIndex st + n"
  by (induction n) (simp_all add: clipIndex_loopBody)

text \<open>Facts for evaluating the engine on a concrete request.\<close>

lemmas engine_defs = suggestClips_def initialState_def loopCond_def loopBody_def Let_def
  relevantSegments_def spanDuration_def minDuration_def maxDuration_def orDefault_def

lemma base_windows:
  "map startSec (suggestClips rnd halfMinuteSegments baseOptions) = [0, 30]"
  "map endSec (suggestClips rnd halfMinuteSegments baseOptions) = [25, 55]"
  by (simp_all add: engine_defs suggestLoop.simps makeClip_fields halfMinuteSegments_def
      baseOptions_def)

lemma base_caption_ends:
  "map (\<lambda>c. map endSec (captions c)) (suggestClips rnd halfMinuteSegments baseOptions)
     = [[30], [60]]"
  by (simp add: engine_defs suggestLoop.simps makeClip_def generateCaptions_def
      halfMinuteSegments_def baseOptions_def)

lemma short_windows:
  "map startSec (suggestClips rnd fiveSecondSegment shortWindowOptions) = [0]"
  "map endSec (suggestClips rnd fiveSecondSegment shortWindowOptions) = [10]"
  by (simp_all add: engine_defs suggestLoop.simps makeClip_fields fiveSecondSegment_def
      shortWindowOptions_def baseOptions_def)

lemma negativeMax_starts:
  "map startSec (suggestClips (constDraws (1 / 2)) wholeFileSegment negativeMaxOptions)
     = [100, 75, 50]"
  by (simp add: engine_defs suggestLoop.simps makeClip_fields wholeFileSegment_def
      negativeMaxOptions_def baseOptions_def)

lemma list_eq_map_hd: "map f xs = y # ys \<Longrightarrow> xs \<noteq> [] \<and> f (hd xs) = y"
  by (cases xs) auto

section \<open>Termination and the cap of ten clips\<close>

lemma suggestLoop_iterations:
  "\<exists>n. n \<le> 10 - clipIndex st \<and> suggestLoop rnd tr opts st = (loopBody rnd tr opts ^^ n) st
       \<and> \<not> loopCond opts ((loopBody rnd tr opts ^^ n) st)"
proof (induction rnd tr opts st rule: suggestLoop.induct)
  case (1 rnd tr opts st)
  show ?case
  proof (cases "loopCond opts st")
    case True
    from "1.IH"[OF True] obtain n where n:
      "n \<le> 10 - clipIndex (loopBody rnd tr opts st)"
      "suggestLoop rnd tr opts (loopBody rnd tr opts st)
         = (loopBody rnd tr opts ^^ n) (loopBody rnd tr opts st)"
      "\<not> loopCond opts ((loopBody rnd tr opts ^^ n) (loopBody rnd tr opts st))"
      by blast
    have lt: "clipIndex st < 10" using True by (simp add: loopCond_def)
    have "Suc n \<le> 10 - clipIndex st"
      using n(1) lt by (simp add: clipIndex_loopBody)
    moreover have "suggestLoop rnd tr opts st = (loopBody rnd tr opts ^^ Suc n) st"
      using True n(2) by (subst suggestLoop.simps) (simp add: funpow_swap1)
    moreover have "\<not> loopCond opts ((loopBody rnd tr opts ^^ Suc n) st)"
      using n(3) by (simp add: funpow_swap1)
    ultimately show ?thesis by blast
  next
    case False
    have "suggestLoop rnd tr opts st = (loopBody rnd tr opts ^^ 0) st"
      using False by (subst suggestLoop.simps) simp
    moreover have "\<not> loopCond opts ((loopBody rnd tr opts ^^ 0) st)"
      using False by simp
    ultimately show ?thesis by (intro exI[of _ 0]) simp
  qed
qed

lemma length_clips_suggestLoop:
  "length (clips st) \<le> clipIndex st \<Longrightarrow> clipIndex st \<le> 10 \<Longrightarrow>
   length (clips (suggestLoop rnd tr opts st)) \<le> clipIndex (suggestLoop rnd tr opts st)
   \<and> clipIndex (suggestLoop rnd tr opts st) \<le> 10"
  by (rule suggestLoop_invariant
        [where P = "\<lambda>s. length (clips s) \<le> clipIndex s \<and> clipIndex s \<le> 10"])
     (auto simp: clips_loopBody clipIndex_loopBody loopCond_def)

text \<open>
  Claim C10. \<open>suggestClips\<close> terminates for every input, whatever the custom minimum and
  maximum are (absent, negative, reversed): the state the loop returns is reached after
  \<open>n \<le> 10\<close> runs of the body, where the loop condition is false; every run of the body
  adds one to \<open>clipIndex\<close>, which ends at \<open>n\<close>; and at most ten clips are returned.
  The statement has no condition on the draws, the transcript or the options.
\<close>

theorem suggestClips_terminates_within_ten_iterations:
  "(\<exists>n. n \<le> 10
       \<and> suggestLoop rnd tr opts (initialState opts)
            = (loopBody rnd tr opts ^^ n) (initialState opts)
       \<and> \<not> loopCond opts ((loopBody rnd tr opts ^^ n) (initialState opts))
       \<and> clipIndex (suggestLoop rnd tr opts (initialState opts)) = n)
   \<and> clipIndex (loopBody rnd tr opts st) = clipIndex st + 1
   \<and> length (suggestClips rnd tr opts) \<le> 10"
proof -
  obtain n where n: "n \<le> 10 - clipIndex (initialState opts)"
    "suggestLoop rnd tr opts (initialState opts) = (loopBody rnd tr opts ^^ n) (initialState opts)"
    "\<not> loopCond opts ((loopBody rnd tr opts ^^ n) (initialState opts))"
    using suggestLoop_iterations by blast
  have idx: "clipIndex (suggestLoop rnd tr opts (initialState opts)) = n"
    unfolding n(2) clipIndex_funpow by (simp add: initialState_def)
  have le: "n \<le> 10" using n(1) by simp
  have len: "length (suggestClips rnd tr opts) \<le> 10"
    using length_clips_suggestLoop[of "initialState opts" rnd tr opts]
    by (simp add: suggestClips_def initialState_def)
  have step: "clipIndex (loopBody rnd tr opts st) = clipIndex st + 1"
    by (simp add: clipIndex_loopBody)
  have "\<exists>n. n \<le> 10
       \<and> suggestLoop rnd tr opts (initialState opts)
            = (loopBody rnd tr opts ^^ n) (initialState opts)
       \<and> \<not> loopCond opts ((loopBody rnd tr opts ^^ n) (initialState opts))
       \<and> clipIndex (suggestLoop rnd tr opts (initialState opts)) = n"
    by (rule exI[of _ n]) (intro conjI le n(2) n(3) idx)
  then show ?thesis
    using step len by (intro conjI)
qed

section \<open>Scores\<close>

lemma makeClip_scores_subranges:
  assumes "\<forall>k. 0 \<le> rnd k \<and> rnd k < 1"
  shows "scoresInSubranges (scores (makeClip rnd opts st rel))"
proof -
  have a: "0 \<le> rnd (drawn st) \<and> rnd (drawn st) < 1"
    and b: "0 \<le> rnd (drawn st + 1) \<and> rnd (drawn st + 1) < 1"
    and c: "0 \<le> rnd (drawn st + 2) \<and> rnd (drawn st + 2) < 1"
    using assms by blast+
  show ?thesis
    using a b c by (simp add: makeClip_def Let_def scoresInSubranges_def)
qed

lemma suggestClips_scores_subranges:
  assumes "\<forall>k. 0 \<le> rnd k \<and> rnd k < 1"
  shows "\<forall>c\<in>set (suggestClips rnd tr opts). scoresInSubranges (scores c)"
  unfolding suggestClips_def
proof (rule suggestLoop_invariant
    [where P = "\<lambda>s::loopState. \<forall>c\<in>set (clips s). scoresInSubranges (scores c)"])
  show "\<forall>c\<in>set (clips (initialState opts)). scoresInSubranges (scores c)"
    by (simp add: initialState_def)
next
  fix s :: loopState
  assume "\<forall>c\<in>set (clips s). scoresInSubranges (scores c)"
  then show "\<forall>c\<in>set (clips (loopBody rnd tr opts s)). scoresInSubranges (scores c)"
    using makeClip_scores_subranges[OF assms] by (auto simp: clips_loopBody)
qed

lemma subranges_imp_unit: "scoresInSubranges s \<Longrightarrow> scoresInUnit s"
  by (simp add: scoresInSubranges_def scoresInUnit_def)

text \<open>
  Claim C9. When every draw of \<open>Math.random()\<close> lies in \<open>[0, 1)\<close>, every emitted clip
  has its engagement in \<open>[0.5, 1]\<close>, its clarity in \<open>[0.7, 1]\<close> and its hook in
  \<open>[0.6, 1]\<close>; no clip is scored below \<open>0.5\<close> engagement.
\<close>

theorem scores_in_subranges:
  assumes "\<forall>k. 0 \<le> rnd k \<and> rnd k < 1"
  shows "\<forall>c\<in>set (suggestClips rnd tr opts).
     1 / 2 \<le> engagement (scores c) \<and> engagement (scores c) \<le> 1 \<and>
     7 / 10 \<le> clarity (scores c) \<and> clarity (scores c) \<le> 1 \<and>
     3 / 5 \<le> hook (scores c) \<and> hook (scores c) \<le> 1"
  using suggestClips_scores_subranges[OF assms] by (simp add: scoresInSubranges_def)

text \<open>The first clip of the sample request, with every draw equal to one half.\<close>

theorem scores_in_subranges_witness:
  "(\<forall>k. 0 \<le> constDraws (1 / 2) k \<and> constDraws (1 / 2) k < 1)
   \<and> suggestClips (constDraws (1 / 2)) halfMinuteSegments baseOptions \<noteq> []
   \<and> 1 / 2 \<le> engagement (scores (hd (suggestClips (constDraws (1 / 2)) halfMinuteSegments baseOptions)))
   \<and> engagement (scores (hd (suggestClips (constDraws (1 / 2)) halfMinuteSegments baseOptions))) \<le> 1
   \<and> 7 / 10 \<le> clarity (scores (hd (suggestClips (constDraws (1 / 2)) halfMinuteSegments baseOptions)))
   \<and> clarity (scores (hd (suggestClips (constDraws (1 / 2)) halfMinuteSegments baseOptions))) \<le> 1
   \<and> 3 / 5 \<le> hook (scores (hd (suggestClips (constDraws (1 / 2)) halfMinuteSegments baseOptions)))
   \<and> hook (scores (hd (suggestClips (constDraws (1 / 2)) halfMinuteSegments baseOptions))) \<le> 1"
proof -
  let ?cs = "suggestClips (constDraws (1 / 2)) halfMinuteSegments baseOptions"
  have r: "\<forall>k. 0 \<le> constDraws (1 / 2) k \<and> constDraws (1 / 2) k < 1"
    by (simp add: constDraws_def)
  have ne: "?cs \<noteq> []"
    using base_windows(1)[of "constDraws (1 / 2)"] by auto
  then have c: "hd ?cs \<in> set ?cs" by simp
  show ?thesis
    using r ne scores_in_subranges[OF r, of halfMinuteSegments baseOptions, rule_format, OF c]
    by simp
qed

lemma loopBody_cong_draws:
  assumes "\<forall>k<30. rnd1 k = rnd2 k" "loopCond opts st" "drawn st \<le> 3 * clipIndex st"
  shows "loopBody rnd1 tr opts st = loopBody rnd2 tr opts st"
proof -
  have "clipIndex st < 10" using assms(2) by (simp add: loopCond_def)
  then have "drawn st + 2 < 30" using assms(3) by simp
  then have "rnd1 (drawn st) = rnd2 (drawn st)" "rnd1 (drawn st + 1) = rnd2 (drawn st + 1)"
    "rnd1 (drawn st + 2) = rnd2 (drawn st + 2)"
    using assms(1) by simp_all
  then have "makeClip rnd1 opts st rel = makeClip rnd2 opts st rel" for rel
    by (simp add: makeClip_def Let_def)
  then show ?thesis by (simp add: loopBody_def Let_def)
qed

lemma suggestLoop_cong_draws:
  "\<forall>k<30. rnd1 k = rnd2 k \<Longrightarrow> drawn st \<le> 3 * clipIndex st \<Longrightarrow>
   suggestLoop rnd1 tr opts st = suggestLoop rnd2 tr opts st"
proof (induction rnd1 tr opts st rule: suggestLoop.induct)
  case (1 rnd1 tr opts st)
  show ?case
  proof (cases "loopCond opts st")
    case True
    have eq: "loopBody rnd1 tr opts st = loopBody rnd2 tr opts st"
      using loopBody_cong_draws[OF "1.prems"(1) True "1.prems"(2)] .
    have "drawn (loopBody rnd1 tr opts st) \<le> 3 * clipIndex (loopBody rnd1 tr opts st)"
      using "1.prems"(2) by (simp add: drawn_loopBody clipIndex_loopBody)
    then have "suggestLoop rnd1 tr opts (loopBody rnd1 tr opts st)
        = suggestLoop rnd2 tr opts (loopBody rnd1 tr opts st)"
      using "1.IH"[OF True "1.prems"(1)] by simp
    then show ?thesis
      using True eq
      by (subst suggestLoop.simps, subst (2) suggestLoop.simps) simp
  next
    case False
    then show ?thesis
      by (subst suggestLoop.simps, subst (2) suggestLoop.simps) simp
  qed
qed

text \<open>
  Claim C8, as the code has it. The scores are not a function of the transcript and the
  options: they are computed from \<open>Math.random()\<close>. What holds is that they are
  determined by the transcript, the options and the draws: two invocations whose first
  thirty draws agree (three draws for each of at most ten clips) return the same clips with
  the same score triples, and each component lies in \<open>[0, 1]\<close> when the draws lie in
  \<open>[0, 1)\<close>.
\<close>

theorem scores_determined_by_draws:
  assumes "\<forall>k<30. rnd1 k = rnd2 k" and "\<forall>k. 0 \<le> rnd1 k \<and> rnd1 k < 1"
  shows "suggestClips rnd1 tr opts = suggestClips rnd2 tr opts
     \<and> map scores (suggestClips rnd1 tr opts) = map scores (suggestClips rnd2 tr opts)
     \<and> (\<forall>c\<in>set (suggestClips rnd1 tr opts). scoresInUnit (scores c))"
proof -
  have "suggestClips rnd1 tr opts = suggestClips rnd2 tr opts"
    unfolding suggestClips_def
    using suggestLoop_cong_draws[OF assms(1), of "initialState opts" tr opts]
    by (simp add: initialState_def)
  moreover have "\<forall>c\<in>set (suggestClips rnd1 tr opts). scoresInUnit (scores c)"
    using suggestClips_scores_subranges[OF assms(2)] subranges_imp_unit by blast
  ultimately show ?thesis by simp
qed

text \<open>Two draw sequences that differ from the thirty-first draw on give the same scores.\<close>

theorem scores_determined_by_draws_witness:
  "constDraws (1 / 2) 30 \<noteq> cutDraws (1 / 2) 30
   \<and> (\<forall>k. 0 \<le> constDraws (1 / 2) k \<and> constDraws (1 / 2) k < 1)
   \<and> suggestClips (constDraws (1 / 2)) halfMinuteSegments baseOptions \<noteq> []
   \<and> map scores (suggestClips (constDraws (1 / 2)) halfMinuteSegments baseOptions)
      = map scores (suggestClips (cutDraws (1 / 2)) halfMinuteSegments baseOptions)
   \<and> scoresInUnit (scores (hd (suggestClips (constDraws (1 / 2)) halfMinuteSegments baseOptions)))"
proof -
  let ?cs = "suggestClips (constDraws (1 / 2)) halfMinuteSegments baseOptions"
  have a: "\<forall>k<30. constDraws (1 / 2) k = cutDraws (1 / 2) k"
    by (simp add: constDraws_def cutDraws_def)
  have r: "\<forall>k. 0 \<le> constDraws (1 / 2) k \<and> constDraws (1 / 2) k < 1"
    by (simp add: constDraws_def)
  have d: "constDraws (1 / 2) 30 \<noteq> cutDraws (1 / 2) 30"
    by (simp add: constDraws_def cutDraws_def)
  have ne: "?cs \<noteq> []"
    using base_windows(1)[of "constDraws (1 / 2)"] by auto
  then have c: "hd ?cs \<in> set ?cs" by simp
  show ?thesis
    using d r ne c scores_determined_by_draws[OF a r, of halfMinuteSegments baseOptions]
    by simp
qed

text \<open>
  The same transcript and options scored twice, once with every draw \<open>0\<close> and once with
  every draw one half: the score triples differ.
\<close>

theorem scores_differ_between_runs_counterexample:
  "map scores (suggestClips (constDraws 0) halfMinuteSegments baseOptions)
     \<noteq> map scores (suggestClips (constDraws (1 / 2)) halfMinuteSegments baseOptions)"
  by (simp add: engine_defs suggestLoop.simps makeClip_def constDraws_def
      halfMinuteSegments_def baseOptions_def)

section \<open>Order and overlap of the emitted windows\<close>

lemma spanDuration_pos:
  "0 < maxDuration opts \<Longrightarrow> cur < timeEndSec opts \<Longrightarrow> 0 < spanDuration opts cur"
  by (simp add: spanDuration_def)

lemma orderedInv_step:
  assumes "0 < maxDuration opts" "orderedInv st" "loopCond opts st"
  shows "orderedInv (loopBody rnd tr opts st)"
proof -
  have pos: "0 < spanDuration opts (currentStart st)"
    using assms(1,3) by (simp add: spanDuration_pos loopCond_def)
  show ?thesis
    using assms(2) pos
    by (auto simp: orderedInv_def clips_loopBody currentStart_loopBody sorted_wrt_append
        makeClip_fields)
qed

lemma orderedInv_suggestLoop:
  assumes "0 < maxDuration opts"
  shows "orderedInv (suggestLoop rnd tr opts (initialState opts))"
proof (rule suggestLoop_invariant[where P = orderedInv])
  show "orderedInv (initialState opts)"
    by (simp add: orderedInv_def initialState_def)
next
  fix s :: loopState assume "orderedInv s" "loopCond opts s"
  then show "orderedInv (loopBody rnd tr opts s)"
    using orderedInv_step[OF assms] by blast
qed




section \<open>Durations and the job's window\<close>

lemma spanDuration_band:
  "minDuration opts \<le> maxDuration opts \<Longrightarrow>
   minDuration opts \<le> spanDuration opts cur \<and> spanDuration opts cur \<le> maxDuration opts"
  by (simp add: spanDuration_def)

lemma spanDuration_end:
  "cur + spanDuration opts cur \<le> max (timeEndSec opts) (cur + minDuration opts)"
  by (simp add: spanDuration_def min_def max_def)

lemma bounds_step:
  assumes "0 < maxDuration opts" "minDuration opts \<le> maxDuration opts"
    and "timeStartSec opts \<le> currentStart st \<and> (\<forall>c\<in>set (clips st). clipWithinBounds opts c)"
    and "loopCond opts st"
  shows "timeStartSec opts \<le> currentStart (loopBody rnd tr opts st)
     \<and> (\<forall>c\<in>set (clips (loopBody rnd tr opts st)). clipWithinBounds opts c)"
proof -
  have lt: "currentStart st < timeEndSec opts" using assms(4) by (simp add: loopCond_def)
  have pos: "0 < spanDuration opts (currentStart st)"
    using assms(1) lt by (rule spanDuration_pos)
  have new: "clipWithinBounds opts (makeClip rnd opts st rel)" for rel
    using pos lt assms(3) spanDuration_band[OF assms(2), of "currentStart st"]
      spanDuration_end[of "currentStart st" opts]
    by (simp add: clipWithinBounds_def makeClip_fields)
  show ?thesis
    using assms(3) pos new by (auto simp: clips_loopBody currentStart_loopBody)
qed

lemma suggestClips_bounds:
  assumes "0 < maxDuration opts" "minDuration opts \<le> maxDuration opts"
  shows "\<forall>c\<in>set (suggestClips rnd tr opts). clipWithinBounds opts c"
proof -
  have "timeStartSec opts \<le> currentStart (suggestLoop rnd tr opts (initialState opts))
     \<and> (\<forall>c\<in>set (clips (suggestLoop rnd tr opts (initialState opts))). clipWithinBounds opts c)"
  proof (rule suggestLoop_invariant
      [where P = "\<lambda>s::loopState. timeStartSec opts \<le> currentStart s
         \<and> (\<forall>c\<in>set (clips s). clipWithinBounds opts c)"])
    show "timeStartSec opts \<le> currentStart (initialState opts)
       \<and> (\<forall>c\<in>set (clips (initialState opts)). clipWithinBounds opts c)"
      by (simp add: initialState_def)
  next
    fix s :: loopState
    assume "timeStartSec opts \<le> currentStart s \<and> (\<forall>c\<in>set (clips s). clipWithinBounds opts c)"
      and "loopCond opts s"
    then show "timeStartSec opts \<le> currentStart (loopBody rnd tr opts s)
       \<and> (\<forall>c\<in>set (clips (loopBody rnd tr opts s)). clipWithinBounds opts c)"
      using bounds_step[OF assms] by blast
  qed
  then show ?thesis by (simp add: suggestClips_def)
qed

text \<open>On a window shorter than the minimum the loop runs its body once.\<close>

lemma short_window_single_iteration:
  assumes "minDuration opts \<le> maxDuration opts"
    and "timeStartSec opts < timeEndSec opts"
    and "timeEndSec opts - timeStartSec opts < minDuration opts"
  shows "suggestClips rnd tr opts = clips (loopBody rnd tr opts (initialState opts))"
    and "spanDuration opts (timeStartSec opts) = minDuration opts"
proof -
  show d: "spanDuration opts (timeStartSec opts) = minDuration opts"
    using assms by (simp add: spanDuration_def)
  have c0: "loopCond opts (initialState opts)"
    using assms(2) by (simp add: loopCond_def initialState_def)
  have c1: "\<not> loopCond opts (loopBody rnd tr opts (initialState opts))"
    using assms(3) d by (simp add: loopCond_def currentStart_loopBody initialState_def)
  have "suggestLoop rnd tr opts (initialState opts) = loopBody rnd tr opts (initialState opts)"
    using c0 c1 by (subst suggestLoop.simps, subst suggestLoop.simps) simp
  then show "suggestClips rnd tr opts = clips (loopBody rnd tr opts (initialState opts))"
    by (simp add: suggestClips_def)
qed




section \<open>Captions\<close>

lemma generateCaptions_from_relevant:
  assumes "k \<in> set (generateCaptions (relevantSegments tr cur e) opts)"
  shows "startSec k < e \<and> cur < endSec k \<and>
      (\<exists>seg\<in>set (segments tr).
          startSec k = startSec seg \<and> endSec k = endSec seg \<and> segText k = segText seg)"
  using assms by (auto simp: generateCaptions_def relevantSegments_def)

lemma makeClip_captions:
  "captionsOfSpan tr opts (makeClip rnd opts st
      (relevantSegments tr (currentStart st) (currentStart st + spanDuration opts (currentStart st))))"
  by (simp add: captionsOfSpan_def makeClip_def Let_def)

lemma suggestClips_captionsOfSpan:
  "\<forall>c\<in>set (suggestClips rnd tr opts). captionsOfSpan tr opts c"
  unfolding suggestClips_def
proof (rule suggestLoop_invariant
    [where P = "\<lambda>s::loopState. \<forall>c\<in>set (clips s). captionsOfSpan tr opts c"])
  show "\<forall>c\<in>set (clips (initialState opts)). captionsOfSpan tr opts c"
    by (simp add: initialState_def)
next
  fix s :: loopState
  assume "\<forall>c\<in>set (clips s). captionsOfSpan tr opts c"
  then show "\<forall>c\<in>set (clips (loopBody rnd tr opts s)). captionsOfSpan tr opts c"
    using makeClip_captions[of tr opts rnd s] by (auto simp: clips_loopBody)
qed

text \<open>
  Claim C5, as the code has it. The caption list of an emitted clip is made of the
  transcript segments that overlap the clip's window, each with the segment's own start,
  end and text: the times are neither cut to the window nor shifted to the clip's
  coordinates. So every caption overlaps its clip (\<open>caption.start < clip.end\<close> and
  \<open>caption.end > clip.start\<close>) and is a segment of the transcript; it need not lie inside
  the clip. With captions disabled the list is empty.
\<close>

theorem captions_are_the_overlapping_segments:
  "\<forall>c\<in>set (suggestClips rnd tr opts).
      captions c = (if captionsEnabled opts
                    then generateCaptions (relevantSegments tr (startSec c) (endSec c)) opts
                    else []) \<and>
      (\<forall>k\<in>set (captions c).
          startSec k < endSec c \<and> startSec c < endSec k \<and>
          (\<exists>seg\<in>set (segments tr).
              startSec k = startSec seg \<and> endSec k = endSec seg \<and> segText k = segText seg))"
proof
  fix c assume c: "c \<in> set (suggestClips rnd tr opts)"
  then have cap: "captions c = (if captionsEnabled opts
                    then generateCaptions (relevantSegments tr (startSec c) (endSec c)) opts
                    else [])"
    using suggestClips_captionsOfSpan[of rnd tr opts] by (simp add: captionsOfSpan_def)
  have "\<forall>k\<in>set (captions c).
          startSec k < endSec c \<and> startSec c < endSec k \<and>
          (\<exists>seg\<in>set (segments tr).
              startSec k = startSec seg \<and> endSec k = endSec seg \<and> segText k = segText seg)"
  proof
    fix k assume "k \<in> set (captions c)"
    then have "k \<in> set (generateCaptions (relevantSegments tr (startSec c) (endSec c)) opts)"
      using cap by (simp split: if_splits)
    then show "startSec k < endSec c \<and> startSec c < endSec k \<and>
          (\<exists>seg\<in>set (segments tr).
              startSec k = startSec seg \<and> endSec k = endSec seg \<and> segText k = segText seg)"
      by (rule generateCaptions_from_relevant)
  qed
  then show "captions c = (if captionsEnabled opts
                    then generateCaptions (relevantSegments tr (startSec c) (endSec c)) opts
                    else []) \<and>
      (\<forall>k\<in>set (captions c).
          startSec k < endSec c \<and> startSec c < endSec k \<and>
          (\<exists>seg\<in>set (segments tr).
              startSec k = startSec seg \<and> endSec k = endSec seg \<and> segText k = segText seg))"
    using cap by blast
qed

text \<open>The first caption of the first clip of the sample request overlaps that clip.\<close>

theorem captions_witness:
  "hd (suggestClips (constDraws (1 / 2)) halfMinuteSegments baseOptions)
      \<in> set (suggestClips (constDraws (1 / 2)) halfMinuteSegments baseOptions)
   \<and> hd (captions (hd (suggestClips (constDraws (1 / 2)) halfMinuteSegments baseOptions)))
      \<in> set (captions (hd (suggestClips (constDraws (1 / 2)) halfMinuteSegments baseOptions)))
   \<and> startSec (hd (captions (hd (suggestClips (constDraws (1 / 2)) halfMinuteSegments baseOptions))))
      < endSec (hd (suggestClips (constDraws (1 / 2)) halfMinuteSegments baseOptions))
   \<and> startSec (hd (suggestClips (constDraws (1 / 2)) halfMinuteSegments baseOptions))
      < endSec (hd (captions (hd (suggestClips (constDraws (1 / 2)) halfMinuteSegments baseOptions))))"
proof -
  let ?cs = "suggestClips (constDraws (1 / 2)) halfMinuteSegments baseOptions"
  have ne: "?cs \<noteq> []"
    using base_windows(1)[of "constDraws (1 / 2)"] by auto
  then have c: "hd ?cs \<in> set ?cs" by simp
  have "map endSec (captions (hd ?cs)) = [30]"
    using list_eq_map_hd[OF base_caption_ends[of "constDraws (1 / 2)"]] by simp
  then have "captions (hd ?cs) \<noteq> []" by auto
  then have k: "hd (captions (hd ?cs)) \<in> set (captions (hd ?cs))" by simp
  show ?thesis
    using c k captions_are_the_overlapping_segments
      [of "constDraws (1 / 2)" halfMinuteSegments baseOptions]
    by blast
qed

text \<open>
  The first clip of the sample request is \<open>[0, 25)\<close> and carries the caption
  \<open>[0, 30)\<close>, the whole first segment: the caption ends after the clip.
\<close>

theorem caption_outside_clip_counterexample:
  "\<not> list_all captionsInsideClip (suggestClips (constDraws (1 / 2)) halfMinuteSegments baseOptions)"
proof -
  let ?cs = "suggestClips (constDraws (1 / 2)) halfMinuteSegments baseOptions"
  obtain a b where ab: "?cs = [a, b]"
    using base_windows(1)[of "constDraws (1 / 2)"] by auto
  have "map endSec (captions a) = [30]" "endSec a = 25"
    using base_caption_ends[of "constDraws (1 / 2)"] base_windows(2)[of "constDraws (1 / 2)"] ab
    by simp_all
  then have "\<not> captionsInsideClip a"
    by (cases "captions a") (auto simp: captionsInsideClip_def captionInside_def)
  then show ?thesis by (simp add: ab)
qed

section \<open>The orchestrator and the job's status\<close>

lemma dbJobs_saveClips: "dbJobs (fst (saveClips saveErr jid cs k d)) = dbJobs d"
  by (induction cs arbitrary: k d) (simp_all add: createClip_def split: option.splits)

text \<open>No path through \<open>processVideoAsync\<close> writes a job row: it has no call that could.\<close>

lemma dbJobs_processVideoAsync:
  "dbJobs (resDb (processVideoAsync env d jid videoPath opts)) = dbJobs d"
proof -
  have "dbJobs (resDb (case saveClips (saveError env) jid cs 0 d of
        (d', Some e) \<Rightarrow> catchBlock d' e
      | (d', None) \<Rightarrow> \<lparr> resDb = d', caught = None, audioCleaned = True \<rparr>)) = dbJobs d" for cs
    using dbJobs_saveClips[of "saveError env" jid cs 0 d]
    by (cases "saveClips (saveError env) jid cs 0 d") (simp add: catchBlock_def split: option.splits)
  then show ?thesis
    by (simp add: processVideoAsync_def catchBlock_def split: option.splits sum.splits)
qed

lemma getJob_processVideoAsync:
  "getJob j (resDb (processVideoAsync env d jid videoPath opts)) = getJob j d"
  by (simp add: getJob_def dbJobs_processVideoAsync)

lemma suggestClips_no_segments: "segments tr = [] \<Longrightarrow> suggestClips rnd tr opts = []"
  unfolding suggestClips_def
proof -
  assume e: "segments tr = []"
  have "clips (suggestLoop rnd tr opts (initialState opts)) = []"
  proof (rule suggestLoop_invariant[where P = "\<lambda>s::loopState. clips s = []"])
    show "clips (initialState opts) = []" by (simp add: initialState_def)
  next
    fix s :: loopState assume "clips s = []"
    then show "clips (loopBody rnd tr opts s) = []"
      using e by (simp add: clips_loopBody relevantSegments_def)
  qed
  then show "clips (suggestLoop rnd tr opts (initialState opts)) = []" .
qed

lemma quiet_run:
  "processVideoAsync quietEnv d jid videoPath opts
     = \<lparr> resDb = d, caught = None, audioCleaned = True \<rparr>"
  by (simp add: processVideoAsync_def extractAudio_def quietEnv_def ffmpegOk_def
      silentProvider_def emptyTranscribe_def geminiSuggestClips_def suggestClips_no_segments)

lemma freshDb_job:
  "map_option status (getJob ''job-1'' freshDb) = Some ''processing''"
  by (simp add: freshDb_def createJob_def getJob_def newJob_def)




text \<open>
  Claim C4 at a job whose audio extraction fails (ffmpeg reports an error). The error is
  caught, the later stages are skipped (no clip is stored, the audio file is not cleaned
  up), and the store is left as it was: the job's status is still \<open>processing\<close>, not
  \<open>failed\<close>, and no reason is recorded. The \<open>catch\<close> block holds only a log call and the
  comment \<open>TODO: update job status to failed\<close>.
\<close>

theorem failed_extraction_leaves_status_processing:
  "caught (processVideoAsync brokenSourceEnv freshDb ''job-1'' ''/app/temp/uploads/talk.mp4'' baseOptions)
      = Some (Error ''Failed to extract audio: ffmpeg exited with code 1'')
   \<and> resDb (processVideoAsync brokenSourceEnv freshDb ''job-1'' ''/app/temp/uploads/talk.mp4'' baseOptions)
      = freshDb
   \<and> \<not> audioCleaned
        (processVideoAsync brokenSourceEnv freshDb ''job-1'' ''/app/temp/uploads/talk.mp4'' baseOptions)
   \<and> map_option status (getJob ''job-1''
        (resDb (processVideoAsync brokenSourceEnv freshDb ''job-1'' ''/app/temp/uploads/talk.mp4'' baseOptions)))
      = Some ''processing''
   \<and> map_option status (getJob ''job-1''
        (resDb (processVideoAsync brokenSourceEnv freshDb ''job-1'' ''/app/temp/uploads/talk.mp4'' baseOptions)))
      \<noteq> Some ''failed''"
proof -
  have r: "processVideoAsync brokenSourceEnv freshDb ''job-1'' ''/app/temp/uploads/talk.mp4'' baseOptions
      = catchBlock freshDb (Error ''Failed to extract audio: ffmpeg exited with code 1'')"
    by (simp add: processVideoAsync_def extractAudio_def brokenSourceEnv_def quietEnv_def
        ffmpegFails_def)
  show ?thesis
    by (simp add: r catchBlock_def freshDb_job)
qed

section \<open>Audio extraction and the time window\<close>




end
